theory Spec2Isabelle
  imports Main "HOL-Library.Sublist"
begin

section \<open>The build monitor (monitor_build.py)\<close>

text \<open>
  The script resolves a workflow by name, dispatches it and polls the list of recent
  runs until the latest one is completed or sixty polls have been made. Everything it
  does beyond computing values is an effect on the outside world: a request to the
  provider, a line on standard output, a sleep. The model threads a \<open>world\<close> through
  every function: it holds the replies the provider is going to give, per endpoint and
  in order, and the chronological trace of the effects performed so far.
\<close>

subsection \<open>Data returned by the provider\<close>

text \<open>
  The JSON records are modelled with the fields the script reads, typed as the provider
  documents them. The fields the script indexes with \<open>[...]\<close> (\<open>id\<close>, \<open>path\<close>, \<open>status\<close>,
  \<open>html_url\<close>) are always there; \<open>conclusion\<close>, read with \<open>.get\<close>, is \<open>None\<close> when the key
  is missing or null. A response is its status code and its decoded body, which has the
  shape of its endpoint: a list of workflows (the value under \<open>workflows\<close>), a list of
  runs (the value under \<open>workflow_runs\<close>), or nothing that the script reads for a
  dispatch. Every request is answered: a connection that fails or never answers, where
  \<open>requests\<close> would raise or block, is not part of the model.
\<close>

record workflow =
  wf_id :: int
  wf_path :: string

record run =
  run_status :: string
  run_conclusion :: "string option"
  run_html_url :: string

record 'a response =
  status_code :: nat
  json :: 'a

subsection \<open>Effects\<close>

datatype request = GetWorkflows | PostDispatch int | GetRuns

text \<open>One constructor per message the script prints, with the interpolated values.\<close>

datatype line =
    MonitoringBanner
  | NoRunsFound
  | StatusLine string
  | ConclusionLine string
  | NlRule
  | BuildSuccessful
  | ViewRun string
  | DownloadArtifacts
  | BuildFailed "string option"
  | ViewLogs string
  | TimeoutReached
  | PatNotFound
  | Rule
  | Title
  | RepositoryLine string string
  | CheckingWorkflow
  | FoundWorkflow int
  | Triggering
  | Triggered
  | CouldNotTrigger
  | WorkflowNotFound
  | CheckStatusAt
  | ActionsUrl string string

datatype event = Print line | Send request | Sleep nat

record world =
  workflows_replies :: "nat \<Rightarrow> workflow list response"
  dispatch_replies :: "nat \<Rightarrow> unit response"
  runs_replies :: "nat \<Rightarrow> run list response"
  trace :: "event list"

definition print :: "line \<Rightarrow> world \<Rightarrow> world" where
  "print l w = w\<lparr>trace := trace w @ [Print l]\<rparr>"

definition sleep :: "nat \<Rightarrow> world \<Rightarrow> world" where
  "sleep secs w = w\<lparr>trace := trace w @ [Sleep secs]\<rparr>"

text \<open>
  \<open>requests.get\<close> and \<open>requests.post\<close> on the three endpoints: the request is logged
  and the next reply of that endpoint is consumed.
\<close>

definition requests_get_runs :: "world \<Rightarrow> run list response \<times> world" where
  "requests_get_runs w =
     (runs_replies w 0,
      w\<lparr>runs_replies := (\<lambda>k. runs_replies w (Suc k)), trace := trace w @ [Send GetRuns]\<rparr>)"

definition requests_get_workflows :: "world \<Rightarrow> workflow list response \<times> world" where
  "requests_get_workflows w =
     (workflows_replies w 0,
      w\<lparr>workflows_replies := (\<lambda>k. workflows_replies w (Suc k)),
        trace := trace w @ [Send GetWorkflows]\<rparr>)"

definition requests_post_dispatch :: "int \<Rightarrow> world \<Rightarrow> unit response \<times> world" where
  "requests_post_dispatch workflow_id w =
     (dispatch_replies w 0,
      w\<lparr>dispatch_replies := (\<lambda>k. dispatch_replies w (Suc k)),
        trace := trace w @ [Send (PostDispatch workflow_id)]\<rparr>)"

text \<open>The requests sent and the lines printed so far, read off the trace.\<close>

fun network_calls :: "event list \<Rightarrow> request list" where
  "network_calls [] = []"
| "network_calls (Send r # es) = r # network_calls es"
| "network_calls (_ # es) = network_calls es"

fun printed :: "event list \<Rightarrow> line list" where
  "printed [] = []"
| "printed (Print l # es) = l # printed es"
| "printed (_ # es) = printed es"

fun status_lines :: "event list \<Rightarrow> string list" where
  "status_lines [] = []"
| "status_lines (Print (StatusLine s) # es) = s # status_lines es"
| "status_lines (_ # es) = status_lines es"

subsection \<open>Module constants\<close>

definition GITHUB_TOKEN :: "(string \<rightharpoonup> string) \<Rightarrow> string option" where
  "GITHUB_TOKEN environ = environ ''GITHUB_PAT''"

definition OWNER :: string where
  "OWNER = ''user662122''"

definition REPO :: string where
  "REPO = ''user662122''"

text \<open>Python's truth value of an optional string: \<open>None\<close> and the empty string are false.\<close>

fun truthy :: "string option \<Rightarrow> bool" where
  "truthy None = False"
| "truthy (Some s) = (s \<noteq> [])"

text \<open>\<open>str.endswith\<close>.\<close>

definition endswith :: "string \<Rightarrow> string \<Rightarrow> bool" where
  "endswith s suf = (length suf \<le> length s \<and> drop (length s - length suf) s = suf)"

subsection \<open>The three API calls\<close>

definition get_workflow_runs :: "world \<Rightarrow> run list \<times> world" where
  "get_workflow_runs w =
     (case requests_get_runs w of (response, w') \<Rightarrow>
        if status_code response = 200 then (json response, w') else ([], w'))"

text \<open>The \<open>for\<close> loop of \<open>get_workflow_id\<close>: the first workflow whose path matches returns.\<close>

fun first_matching :: "string \<Rightarrow> workflow list \<Rightarrow> int option" where
  "first_matching workflow_name [] = None"
| "first_matching workflow_name (workflow # workflows) =
     (if endswith (wf_path workflow) workflow_name then Some (wf_id workflow)
      else first_matching workflow_name workflows)"

definition get_workflow_id :: "string \<Rightarrow> world \<Rightarrow> int option \<times> world" where
  "get_workflow_id workflow_name w =
     (case requests_get_workflows w of (response, w') \<Rightarrow>
        if status_code response = 200 then (first_matching workflow_name (json response), w')
        else (None, w'))"

definition trigger_workflow :: "int \<Rightarrow> world \<Rightarrow> bool \<times> world" where
  "trigger_workflow workflow_id w =
     (case requests_post_dispatch workflow_id w of (response, w') \<Rightarrow>
        (status_code response = 204, w'))"

subsection \<open>The polling loop\<close>

definition max_checks :: nat where
  "max_checks = 60"

text \<open>
  \<open>monitor_loop\<close> is the \<open>while\<close> loop of \<open>monitor_latest_run\<close> together with the two
  statements after it; its arguments are the loop's variables. The result is
  \<open>Some True\<close>, \<open>Some False\<close> or \<open>None\<close>, as the source returns.
\<close>

function monitor_loop :: "string option \<Rightarrow> nat \<Rightarrow> world \<Rightarrow> bool option \<times> world" where
  "monitor_loop previous_status check_count w =
     (if check_count < max_checks then
        (case get_workflow_runs w of
           ([], w1) \<Rightarrow>
             monitor_loop previous_status (check_count + 1) (sleep 5 (print NoRunsFound w1))
         | (latest # _, w1) \<Rightarrow>
             let status = run_status latest;
                 conclusion = run_conclusion latest;
                 (previous_status', w2) =
                    (if Some status \<noteq> previous_status then
                       let w' = print (StatusLine status) w1;
                           w'' = (case conclusion of
                                    Some c \<Rightarrow> if c \<noteq> [] then print (ConclusionLine c) w' else w'
                                  | None \<Rightarrow> w')
                       in (Some status, w'')
                     else (previous_status, w1))
             in if status = ''completed'' then
                  let w3 = print NlRule w2 in
                  if conclusion = Some ''success'' then
                    (Some True,
                     print DownloadArtifacts
                       (print (ViewRun (run_html_url latest)) (print BuildSuccessful w3)))
                  else
                    (Some False,
                     print (ViewLogs (run_html_url latest)) (print (BuildFailed conclusion) w3))
                else monitor_loop previous_status' (check_count + 1) (sleep 5 w2))
      else (None, print TimeoutReached w))"
  by pat_completeness auto
termination
  by (relation "measure (\<lambda>(previous_status, check_count, w). max_checks - check_count)") auto

declare monitor_loop.simps [simp del]

definition monitor_latest_run :: "world \<Rightarrow> bool option \<times> world" where
  "monitor_latest_run w = monitor_loop None 0 (print MonitoringBanner w)"

subsection \<open>The entry point\<close>

text \<open>The value \<open>main\<close> returns is the exit code of the process (\<open>sys.exit(main())\<close>).\<close>

definition main :: "(string \<rightharpoonup> string) \<Rightarrow> world \<Rightarrow> int \<times> world" where
  "main environ w =
     (if \<not> truthy (GITHUB_TOKEN environ) then (1, print PatNotFound w)
      else
        let w = print Rule (print (RepositoryLine OWNER REPO) (print Title (print Rule w)));
            w = print CheckingWorkflow w;
            (workflow_id, w) = get_workflow_id ''build.yml'' w;
            w = (case workflow_id of
                   None \<Rightarrow> print WorkflowNotFound w
                 | Some i \<Rightarrow>
                     if i \<noteq> 0 then
                       let w = print Triggering (print (FoundWorkflow i) w);
                           (triggered, w) = trigger_workflow i w
                       in if triggered then sleep 3 (print Triggered w)
                          else print CouldNotTrigger w
                     else print WorkflowNotFound w);
            (result, w) = monitor_latest_run w
        in case result of
             Some True \<Rightarrow> (0, w)
           | Some False \<Rightarrow> (1, w)
           | None \<Rightarrow> (0, print (ActionsUrl OWNER REPO) (print CheckStatusAt w)))"

section \<open>Notions used in the statements and proofs\<close>

text \<open>
  A reply to the list-runs request shows a completed run when the script accepts it
  (status 200) and the first run of its list has status \<open>completed\<close>.
\<close>

definition shows_completed :: "run list response \<Rightarrow> bool" where
  "shows_completed r =
     (status_code r = 200 \<and>
      (case json r of [] \<Rightarrow> False | latest # _ \<Rightarrow> run_status latest = ''completed''))"

text \<open>
  The runs the polling loop observes when it may still poll \<open>n\<close> times: the first run
  of every accepted, non-empty reply, in order, up to and including the first completed
  one.
\<close>

fun observed_runs :: "nat \<Rightarrow> (nat \<Rightarrow> run list response) \<Rightarrow> run list" where
  "observed_runs 0 replies = []"
| "observed_runs (Suc n) replies =
     (if status_code (replies 0) = 200 then
        (case json (replies 0) of
           [] \<Rightarrow> observed_runs n (\<lambda>k. replies (Suc k))
         | latest # _ \<Rightarrow>
             if run_status latest = ''completed'' then [latest]
             else latest # observed_runs n (\<lambda>k. replies (Suc k)))
      else observed_runs n (\<lambda>k. replies (Suc k)))"

text \<open>
  The status lines due for a sequence of observed statuses, starting from a given
  previous status: one line for each status that differs from the one before it.
\<close>

fun status_updates :: "string option \<Rightarrow> string list \<Rightarrow> string list" where
  "status_updates previous_status [] = []"
| "status_updates previous_status (s # ss) =
     (if Some s \<noteq> previous_status then s # status_updates (Some s) ss
      else status_updates (Some s) ss)"

text \<open>Lines 65 to 69 of the script, as one effect: the status report of an iteration.\<close>

definition report_status :: "string option \<Rightarrow> run \<Rightarrow> world \<Rightarrow> world" where
  "report_status previous_status latest w1 =
     (if Some (run_status latest) \<noteq> previous_status then
        let w' = print (StatusLine (run_status latest)) w1
        in (case run_conclusion latest of
              Some c \<Rightarrow> if c \<noteq> [] then print (ConclusionLine c) w' else w'
            | None \<Rightarrow> w')
      else w1)"

text \<open>How \<open>main\<close> turns the result of monitoring into its return value.\<close>

definition exit_code :: "bool option \<Rightarrow> int" where
  "exit_code result = (case result of Some True \<Rightarrow> 0 | Some False \<Rightarrow> 1 | None \<Rightarrow> 0)"

text \<open>The world in which \<open>main\<close> starts monitoring: after resolution and dispatch.\<close>

definition before_monitoring :: "world \<Rightarrow> world" where
  "before_monitoring w =
     (let w = print Rule (print (RepositoryLine OWNER REPO) (print Title (print Rule w)));
          w = print CheckingWorkflow w;
          (workflow_id, w) = get_workflow_id ''build.yml'' w
      in case workflow_id of
           None \<Rightarrow> print WorkflowNotFound w
         | Some i \<Rightarrow>
             if i \<noteq> 0 then
               let w = print Triggering (print (FoundWorkflow i) w);
                   (triggered, w) = trigger_workflow i w
               in if triggered then sleep 3 (print Triggered w)
                  else print CouldNotTrigger w
             else print WorkflowNotFound w)"

subsection \<open>Concrete environments and worlds\<close>

definition reply :: "nat \<Rightarrow> 'a \<Rightarrow> 'a response" where
  "reply code body = \<lparr>status_code = code, json = body\<rparr>"

definition example_environ :: "string \<rightharpoonup> string" where
  "example_environ = [''GITHUB_PAT'' \<mapsto> ''ghp_example'']"

definition example_run :: "string \<Rightarrow> string option \<Rightarrow> run" where
  "example_run s c =
     \<lparr>run_status = s, run_conclusion = c,
      run_html_url = ''https://github.com/user662122/user662122/actions/runs/1''\<rparr>"

definition example_workflows :: "workflow list" where
  "example_workflows =
     [\<lparr>wf_id = 7, wf_path = ''.github/workflows/lint.yml''\<rparr>,
      \<lparr>wf_id = 42, wf_path = ''.github/workflows/build.yml''\<rparr>,
      \<lparr>wf_id = 43, wf_path = ''.github/workflows/rebuild.yml''\<rparr>]"

definition world_of ::
  "workflow list response \<Rightarrow> unit response \<Rightarrow> (nat \<Rightarrow> run list response) \<Rightarrow> world" where
  "world_of wr dr rr =
     \<lparr>workflows_replies = (\<lambda>_. wr), dispatch_replies = (\<lambda>_. dr), runs_replies = rr,
      trace = []\<rparr>"

definition runs_until_completed :: "string option \<Rightarrow> nat \<Rightarrow> run list response" where
  "runs_until_completed c k =
     (if k = 0 then reply 200 []
      else if k = 1 then reply 200 [example_run ''in_progress'' None]
      else reply 200 [example_run ''completed'' c])"

definition runs_never_completed :: "nat \<Rightarrow> run list response" where
  "runs_never_completed k = reply 200 [example_run ''queued'' None]"

definition runs_with_repeats :: "nat \<Rightarrow> run list response" where
  "runs_with_repeats k =
     (if k < 2 then reply 200 [example_run ''queued'' None]
      else if k < 4 then reply 200 [example_run ''in_progress'' None]
      else reply 200 [example_run ''completed'' (Some ''success'')])"

definition runs_with_code :: "nat \<Rightarrow> nat \<Rightarrow> run list response" where
  "runs_with_code code k = reply code [example_run ''completed'' (Some ''success'')]"

section \<open>Basic facts about traces and the API calls\<close>

lemma network_calls_append [simp]:
  "network_calls (xs @ ys) = network_calls xs @ network_calls ys"
  by (induction xs rule: network_calls.induct) simp_all

lemma printed_append [simp]: "printed (xs @ ys) = printed xs @ printed ys"
  by (induction xs rule: printed.induct) simp_all

lemma status_lines_append [simp]:
  "status_lines (xs @ ys) = status_lines xs @ status_lines ys"
  by (induction xs rule: status_lines.induct) simp_all

lemma print_sel [simp]:
  "trace (print l w) = trace w @ [Print l]"
  "runs_replies (print l w) = runs_replies w"
  "workflows_replies (print l w) = workflows_replies w"
  "dispatch_replies (print l w) = dispatch_replies w"
  by (simp_all add: print_def)

lemma sleep_sel [simp]:
  "trace (sleep n w) = trace w @ [Sleep n]"
  "runs_replies (sleep n w) = runs_replies w"
  "workflows_replies (sleep n w) = workflows_replies w"
  "dispatch_replies (sleep n w) = dispatch_replies w"
  by (simp_all add: sleep_def)

lemma get_workflow_runs_fst:
  "fst (get_workflow_runs w) =
     (if status_code (runs_replies w 0) = 200 then json (runs_replies w 0) else [])"
  by (simp add: get_workflow_runs_def requests_get_runs_def)

lemma get_workflow_runs_sel [simp]:
  "trace (snd (get_workflow_runs w)) = trace w @ [Send GetRuns]"
  "runs_replies (snd (get_workflow_runs w)) = (\<lambda>k. runs_replies w (Suc k))"
  "workflows_replies (snd (get_workflow_runs w)) = workflows_replies w"
  "dispatch_replies (snd (get_workflow_runs w)) = dispatch_replies w"
  by (simp_all add: get_workflow_runs_def requests_get_runs_def)

lemma monitor_loop_timeout:
  "\<not> check_count < max_checks \<Longrightarrow>
     monitor_loop previous_status check_count w = (None, print TimeoutReached w)"
  by (simp add: monitor_loop.simps)

lemma monitor_loop_empty:
  "check_count < max_checks \<Longrightarrow> fst (get_workflow_runs w) = [] \<Longrightarrow>
     monitor_loop previous_status check_count w =
       monitor_loop previous_status (check_count + 1)
         (sleep 5 (print NoRunsFound (snd (get_workflow_runs w))))"
  by (cases "get_workflow_runs w") (subst monitor_loop.simps, simp)

lemma monitor_loop_running:
  "check_count < max_checks \<Longrightarrow> fst (get_workflow_runs w) = latest # rest \<Longrightarrow>
   run_status latest \<noteq> ''completed'' \<Longrightarrow>
     monitor_loop previous_status check_count w =
       monitor_loop (Some (run_status latest)) (check_count + 1)
         (sleep 5 (report_status previous_status latest (snd (get_workflow_runs w))))"
  by (cases "get_workflow_runs w")
     (subst monitor_loop.simps, auto simp: report_status_def Let_def)

lemma monitor_loop_completed:
  "check_count < max_checks \<Longrightarrow> fst (get_workflow_runs w) = latest # rest \<Longrightarrow>
   run_status latest = ''completed'' \<Longrightarrow>
     monitor_loop previous_status check_count w =
       (let w3 = print NlRule (report_status previous_status latest (snd (get_workflow_runs w)))
        in if run_conclusion latest = Some ''success'' then
             (Some True,
              print DownloadArtifacts
                (print (ViewRun (run_html_url latest)) (print BuildSuccessful w3)))
           else
             (Some False,
              print (ViewLogs (run_html_url latest))
                (print (BuildFailed (run_conclusion latest)) w3)))"
  by (cases "get_workflow_runs w")
     (subst monitor_loop.simps, auto simp: report_status_def Let_def)

lemma report_status_sel [simp]:
  "runs_replies (report_status p latest w) = runs_replies w"
  "workflows_replies (report_status p latest w) = workflows_replies w"
  "dispatch_replies (report_status p latest w) = dispatch_replies w"
  "network_calls (trace (report_status p latest w)) = network_calls (trace w)"
  "status_lines (trace (report_status p latest w)) =
     status_lines (trace w) @ (if Some (run_status latest) \<noteq> p then [run_status latest] else [])"
  by (simp_all add: report_status_def Let_def split: option.splits)

lemma monitor_loop_cases [case_names timeout empty running completed]:
  obtains
    "\<not> check_count < max_checks"
  | "check_count < max_checks" "fst (get_workflow_runs w) = []"
  | latest rest where "check_count < max_checks" "fst (get_workflow_runs w) = latest # rest"
      "run_status latest \<noteq> ''completed''"
  | latest rest where "check_count < max_checks" "fst (get_workflow_runs w) = latest # rest"
      "run_status latest = ''completed''"
  by (cases "fst (get_workflow_runs w)") blast+

lemma monitor_loop_calls:
  "\<exists>n. n \<le> max_checks - check_count \<and>
     network_calls (trace (snd (monitor_loop previous_status check_count w))) =
       network_calls (trace w) @ replicate n GetRuns"
proof (induction m \<equiv> "max_checks - check_count" arbitrary: previous_status check_count w)
  case 0
  then show ?case by (simp add: monitor_loop_timeout)
next
  case (Suc m)
  then have lt: "check_count < max_checks" and m: "m = max_checks - (check_count + 1)"
    by simp_all
  show ?case
  proof (cases rule: monitor_loop_cases[where check_count=check_count and w=w])
    case timeout
    with lt show ?thesis by simp
  next
    case empty
    from Suc.hyps(1)[OF m, of previous_status "sleep 5 (print NoRunsFound (snd (get_workflow_runs w)))"]
    obtain n where "n \<le> m" and
      "network_calls (trace (snd (monitor_loop previous_status check_count w))) =
        network_calls (trace w) @ replicate (Suc n) GetRuns"
      using m by (auto simp: monitor_loop_empty[OF empty])
    with Suc.hyps(2) show ?thesis
      by (intro exI[of _ "Suc n"]) simp
  next
    case (running latest rest)
    from Suc.hyps(1)[OF m, of "Some (run_status latest)"
        "sleep 5 (report_status previous_status latest (snd (get_workflow_runs w)))"]
    obtain n where "n \<le> m" and
      "network_calls (trace (snd (monitor_loop previous_status check_count w))) =
        network_calls (trace w) @ replicate (Suc n) GetRuns"
      using m by (auto simp: monitor_loop_running[OF running])
    with Suc.hyps(2) show ?thesis
      by (intro exI[of _ "Suc n"]) simp
  next
    case (completed latest rest)
    have "network_calls (trace (snd (monitor_loop previous_status check_count w))) =
        network_calls (trace w) @ replicate 1 GetRuns"
      by (simp add: monitor_loop_completed[OF completed] Let_def)
    with lt show ?thesis
      by (intro exI[of _ 1]) simp
  qed
qed

lemma monitor_loop_result_cong:
  "runs_replies w = runs_replies w' \<Longrightarrow>
     fst (monitor_loop previous_status check_count w) =
     fst (monitor_loop previous_status' check_count w')"
proof (induction m \<equiv> "max_checks - check_count"
    arbitrary: previous_status previous_status' check_count w w')
  case 0
  then show ?case by (simp add: monitor_loop_timeout)
next
  case (Suc m)
  then have lt: "check_count < max_checks" and m: "m = max_checks - (check_count + 1)"
    by simp_all
  from Suc.prems have same: "fst (get_workflow_runs w') = fst (get_workflow_runs w)"
    by (simp add: get_workflow_runs_fst)
  show ?case
  proof (cases rule: monitor_loop_cases[where check_count=check_count and w=w])
    case timeout
    with lt show ?thesis by simp
  next
    case empty
    note empty' = empty(1) empty(2)[folded same]
    show ?thesis
      unfolding monitor_loop_empty[OF empty] monitor_loop_empty[OF empty']
      by (rule Suc.hyps(1)[OF m]) (simp add: Suc.prems)
  next
    case (running latest rest)
    note running' = running(1) running(2)[folded same] running(3)
    show ?thesis
      unfolding monitor_loop_running[OF running] monitor_loop_running[OF running']
      by (rule Suc.hyps(1)[OF m]) (simp add: Suc.prems)
  next
    case (completed latest rest)
    note completed' = completed(1) completed(2)[folded same] completed(3)
    show ?thesis
      unfolding monitor_loop_completed[OF completed] monitor_loop_completed[OF completed']
      by (simp add: Let_def)
  qed
qed

lemma shows_completed_iff:
  "shows_completed (runs_replies w 0) \<longleftrightarrow>
     (\<exists>latest rest. fst (get_workflow_runs w) = latest # rest \<and> run_status latest = ''completed'')"
  by (auto simp: shows_completed_def get_workflow_runs_fst split: list.splits)

lemma monitor_loop_observes_completed:
  assumes "check_count + k < max_checks"
    and "status_code (runs_replies w k) = 200"
    and "json (runs_replies w k) = latest # rest"
    and "run_status latest = ''completed''"
    and "\<forall>j<k. \<not> shows_completed (runs_replies w j)"
  shows "fst (monitor_loop previous_status check_count w) =
           Some (run_conclusion latest = Some ''success'')"
  using assms
proof (induction k arbitrary: previous_status check_count w)
  case 0
  then have "check_count < max_checks" "fst (get_workflow_runs w) = latest # rest"
    by (simp_all add: get_workflow_runs_fst)
  from monitor_loop_completed[OF this \<open>run_status latest = ''completed''\<close>]
  show ?case by (simp add: Let_def)
next
  case (Suc k)
  from Suc.prems have lt: "check_count < max_checks" and lt': "(check_count + 1) + k < max_checks"
    by simp_all
  from Suc.prems have not0: "\<not> shows_completed (runs_replies w 0)"
    by blast
  from Suc.prems have later: "\<forall>j<k. \<not> shows_completed (runs_replies w (Suc j))"
    by auto
  have step: "fst (monitor_loop p (check_count + 1) w') =
                Some (run_conclusion latest = Some ''success'')"
    if "runs_replies w' = (\<lambda>k. runs_replies w (Suc k))" for p w'
    using that Suc.prems(2,3,4) later by (intro Suc.IH[OF lt']) simp_all
  show ?case
  proof (cases rule: monitor_loop_cases[where check_count=check_count and w=w])
    case timeout
    with lt show ?thesis by simp
  next
    case empty
    show ?thesis
      unfolding monitor_loop_empty[OF empty] by (rule step) simp
  next
    case (running l r)
    show ?thesis
      unfolding monitor_loop_running[OF running] by (rule step) simp
  next
    case (completed l r)
    with not0 show ?thesis
      by (auto simp: shows_completed_iff)
  qed
qed

lemma monitor_loop_exhausted:
  assumes "\<forall>k < max_checks - check_count. \<not> shows_completed (runs_replies w k)"
  shows "fst (monitor_loop previous_status check_count w) = None \<and>
         (\<exists>es. trace (snd (monitor_loop previous_status check_count w)) =
                 trace w @ es @ [Print TimeoutReached]) \<and>
         network_calls (trace (snd (monitor_loop previous_status check_count w))) =
           network_calls (trace w) @ replicate (max_checks - check_count) GetRuns"
  using assms
proof (induction m \<equiv> "max_checks - check_count" arbitrary: previous_status check_count w)
  case 0
  then show ?case by (simp add: monitor_loop_timeout)
next
  case (Suc m)
  then have lt: "check_count < max_checks" and m: "m = max_checks - (check_count + 1)"
    by simp_all
  from Suc.prems Suc.hyps(2) have not0: "\<not> shows_completed (runs_replies w 0)"
    by simp
  from Suc.prems Suc.hyps(2) m
  have later: "\<forall>k < max_checks - (check_count + 1). \<not> shows_completed (runs_replies w (Suc k))"
    by auto
  have step: "fst (monitor_loop p (check_count + 1) w') = None \<and>
         (\<exists>es. trace (snd (monitor_loop p (check_count + 1) w')) =
                 trace w' @ es @ [Print TimeoutReached]) \<and>
         network_calls (trace (snd (monitor_loop p (check_count + 1) w'))) =
           network_calls (trace w') @ replicate (max_checks - (check_count + 1)) GetRuns"
    if "runs_replies w' = (\<lambda>k. runs_replies w (Suc k))" for p w'
    using that later by (intro Suc.hyps(1)[OF m]) simp
  have count: "max_checks - check_count = Suc (max_checks - (check_count + 1))"
    using lt by simp
  show ?case
  proof (cases rule: monitor_loop_cases[where check_count=check_count and w=w])
    case timeout
    with lt show ?thesis by simp
  next
    case empty
    let ?w' = "sleep 5 (print NoRunsFound (snd (get_workflow_runs w)))"
    from step[of ?w' previous_status] show ?thesis
      unfolding monitor_loop_empty[OF empty] count
      by (auto simp: replicate_append_same)
  next
    case (running l r)
    let ?w' = "sleep 5 (report_status previous_status l (snd (get_workflow_runs w)))"
    have "\<exists>es. trace (report_status previous_status l (snd (get_workflow_runs w))) =
            trace w @ es"
      by (simp add: report_status_def Let_def split: option.splits)
    with step[of ?w' "Some (run_status l)"] show ?thesis
      unfolding monitor_loop_running[OF running] count
      by (auto simp: replicate_append_same)
  next
    case (completed l r)
    with not0 show ?thesis
      by (auto simp: shows_completed_iff)
  qed
qed

lemma observed_runs_step:
  "observed_runs (Suc n) (runs_replies w) =
     (case fst (get_workflow_runs w) of
        [] \<Rightarrow> observed_runs n (\<lambda>k. runs_replies w (Suc k))
      | latest # _ \<Rightarrow>
          if run_status latest = ''completed'' then [latest]
          else latest # observed_runs n (\<lambda>k. runs_replies w (Suc k)))"
  by (simp add: get_workflow_runs_fst)

lemma monitor_loop_status_lines:
  "status_lines (trace (snd (monitor_loop previous_status check_count w))) =
     status_lines (trace w) @
     status_updates previous_status
       (map run_status (observed_runs (max_checks - check_count) (runs_replies w)))"
proof (induction m \<equiv> "max_checks - check_count" arbitrary: previous_status check_count w)
  case 0
  then show ?case by (simp add: monitor_loop_timeout)
next
  case (Suc m)
  then have lt: "check_count < max_checks" and m: "m = max_checks - Suc check_count"
    by simp_all
  note IH = Suc.hyps(1)[OF m]
  have count: "max_checks - check_count = Suc (max_checks - Suc check_count)"
    using lt by simp
  show ?case
  proof (cases rule: monitor_loop_cases[where check_count=check_count and w=w])
    case timeout
    with lt show ?thesis by simp
  next
    case empty
    show ?thesis
      unfolding monitor_loop_empty[OF empty] count observed_runs_step
      by (simp add: IH empty)
  next
    case (running l r)
    show ?thesis
      unfolding monitor_loop_running[OF running] count observed_runs_step
      by (simp add: IH running)
  next
    case (completed l r)
    show ?thesis
      unfolding monitor_loop_completed[OF completed] count observed_runs_step
      by (simp add: completed Let_def)
  qed
qed

lemma status_updates_Some:
  "status_updates (Some x) ss = tl (remdups_adj (x # ss))"
proof (induction ss arbitrary: x)
  case Nil
  show ?case by simp
next
  case (Cons s ss)
  have "remdups_adj (s # ss) = s # tl (remdups_adj (s # ss))"
    by (cases ss) simp_all
  then show ?case
    by (simp add: Cons.IH)
qed

lemma status_updates_None: "status_updates None ss = remdups_adj ss"
proof (cases ss)
  case Nil
  then show ?thesis by simp
next
  case (Cons s ss')
  have "remdups_adj (s # ss') = s # tl (remdups_adj (s # ss'))"
    by (cases ss') simp_all
  with Cons show ?thesis
    by (simp add: status_updates_Some)
qed

lemma get_workflow_id_sel [simp]:
  "trace (snd (get_workflow_id n w)) = trace w @ [Send GetWorkflows]"
  "runs_replies (snd (get_workflow_id n w)) = runs_replies w"
  by (simp_all add: get_workflow_id_def requests_get_workflows_def)

lemma trigger_workflow_sel [simp]:
  "trace (snd (trigger_workflow i w)) = trace w @ [Send (PostDispatch i)]"
  "runs_replies (snd (trigger_workflow i w)) = runs_replies w"
  by (simp_all add: trigger_workflow_def requests_post_dispatch_def)

lemma monitor_loop_trace:
  "\<exists>es. trace (snd (monitor_loop previous_status check_count w)) = trace w @ es"
proof (induction m \<equiv> "max_checks - check_count" arbitrary: previous_status check_count w)
  case 0
  then show ?case by (simp add: monitor_loop_timeout)
next
  case (Suc m)
  then have lt: "check_count < max_checks" and m: "m = max_checks - (check_count + 1)"
    by simp_all
  note IH = Suc.hyps(1)[OF m]
  have report: "\<exists>es. trace (report_status previous_status l w') = trace w' @ es" for l w'
    by (simp add: report_status_def Let_def split: option.splits)
  show ?case
  proof (cases rule: monitor_loop_cases[where check_count=check_count and w=w])
    case timeout
    with lt show ?thesis by simp
  next
    case empty
    from IH[of previous_status "sleep 5 (print NoRunsFound (snd (get_workflow_runs w)))"]
    show ?thesis
      unfolding monitor_loop_empty[OF empty] by auto
  next
    case (running l r)
    from IH[of "Some (run_status l)"
        "sleep 5 (report_status previous_status l (snd (get_workflow_runs w)))"]
      report[of l "snd (get_workflow_runs w)"]
    show ?thesis
      unfolding monitor_loop_running[OF running] by auto
  next
    case (completed l r)
    from report[of l "snd (get_workflow_runs w)"]
    show ?thesis
      unfolding monitor_loop_completed[OF completed] by (auto simp: Let_def)
  qed
qed

lemma main_with_token:
  "truthy (GITHUB_TOKEN environ) \<Longrightarrow>
     main environ w =
       (case monitor_latest_run (before_monitoring w) of
          (result, w') \<Rightarrow>
            (case result of
               Some True \<Rightarrow> (0, w')
             | Some False \<Rightarrow> (1, w')
             | None \<Rightarrow> (0, print (ActionsUrl OWNER REPO) (print CheckStatusAt w'))))"
  by (simp add: main_def before_monitoring_def Let_def split: prod.splits option.splits)

lemma before_monitoring_sel [simp]:
  "runs_replies (before_monitoring w) = runs_replies w"
  by (simp add: before_monitoring_def Let_def split_beta split: option.splits)

lemma before_monitoring_trace:
  "\<exists>es. trace (before_monitoring w) = trace w @ es"
  by (simp add: before_monitoring_def Let_def split_beta split: option.splits)

lemma main_exit_code:
  assumes "truthy (GITHUB_TOKEN environ)"
  shows "fst (main environ w) = exit_code (fst (monitor_latest_run w))"
proof -
  have "fst (monitor_latest_run (before_monitoring w)) = fst (monitor_latest_run w)"
    unfolding monitor_latest_run_def by (rule monitor_loop_result_cong) simp
  then show ?thesis
    by (cases "monitor_latest_run (before_monitoring w)")
       (auto simp: main_with_token[OF assms] exit_code_def split: option.splits bool.splits)
qed

lemma example_token: "truthy (GITHUB_TOKEN example_environ)"
  by (simp add: GITHUB_TOKEN_def example_environ_def)

lemma example_polls:
  "status_code (runs_replies (world_of wr dr (runs_until_completed c)) 2) = 200"
  "json (runs_replies (world_of wr dr (runs_until_completed c)) 2) =
     [example_run ''completed'' c]"
  "run_status (example_run ''completed'' c) = ''completed''"
  "run_conclusion (example_run ''completed'' c) = c"
  "\<forall>j<2. \<not> shows_completed (runs_replies (world_of wr dr (runs_until_completed c)) j)"
  by (simp_all add: world_of_def runs_until_completed_def shows_completed_def reply_def
      example_run_def)

lemma endswith_iff_suffix: "endswith s suf \<longleftrightarrow> suffix suf s"
proof
  assume "endswith s suf"
  then have "s = take (length s - length suf) s @ suf"
    by (metis append_take_drop_id endswith_def)
  then show "suffix suf s"
    by (rule suffixI)
next
  assume "suffix suf s"
  then obtain pre where "s = pre @ suf"
    by (auto simp: suffix_def)
  then show "endswith s suf"
    by (simp add: endswith_def)
qed

lemma first_matching_Some:
  "\<forall>x\<in>set before. \<not> endswith (wf_path x) n \<Longrightarrow> endswith (wf_path workflow) n \<Longrightarrow>
     first_matching n (before @ workflow # after) = Some (wf_id workflow)"
  by (induction before) simp_all

lemma first_matching_None:
  "\<forall>x\<in>set workflows. \<not> endswith (wf_path x) n \<Longrightarrow> first_matching n workflows = None"
  by (induction workflows) simp_all

lemma get_workflow_id_fst:
  "fst (get_workflow_id n w) =
     (if status_code (workflows_replies w 0) = 200
      then first_matching n (json (workflows_replies w 0)) else None)"
  by (simp add: get_workflow_id_def requests_get_workflows_def)

lemma main_monitors:
  assumes "truthy (GITHUB_TOKEN environ)"
  shows "\<exists>es es'. trace (snd (main environ w)) = trace w @ es @ Print MonitoringBanner # es'"
proof -
  obtain es where es: "trace (before_monitoring w) = trace w @ es"
    using before_monitoring_trace by blast
  obtain es' where es': "trace (snd (monitor_latest_run (before_monitoring w))) =
      trace w @ es @ Print MonitoringBanner # es'"
    using monitor_loop_trace[of None 0 "print MonitoringBanner (before_monitoring w)"]
    by (auto simp: monitor_latest_run_def es)
  show ?thesis
    by (cases "monitor_latest_run (before_monitoring w)")
       (use es' in \<open>auto simp: main_with_token[OF assms] split: option.splits bool.splits\<close>)
qed

section \<open>Two complete runs, evaluated\<close>

text \<open>
  The model runs. With a credential, a workflow that is found and dispatched, and polls
  that see no run, then a run in progress, then a successful one, the trace of \<open>main\<close> is
  the one the script produces; with polls that never see a completed run, \<open>main\<close> sends
  the list-workflows request, the dispatch and sixty list-runs requests, and returns 0.
\<close>

lemma main_example_trace:
  "fst (main example_environ
         (world_of (reply 200 example_workflows) (reply 204 ())
            (runs_until_completed (Some ''success'')))) = 0 \<and>
   trace (snd (main example_environ
         (world_of (reply 200 example_workflows) (reply 204 ())
            (runs_until_completed (Some ''success''))))) =
     [Print Rule, Print Title, Print (RepositoryLine ''user662122'' ''user662122''),
      Print Rule, Print CheckingWorkflow, Send GetWorkflows, Print (FoundWorkflow 42),
      Print Triggering, Send (PostDispatch 42), Print Triggered, Sleep 3,
      Print MonitoringBanner, Send GetRuns, Print NoRunsFound, Sleep 5,
      Send GetRuns, Print (StatusLine ''in_progress''), Sleep 5,
      Send GetRuns, Print (StatusLine ''completed''),
      Print (ConclusionLine ''success''), Print NlRule, Print BuildSuccessful,
      Print (ViewRun ''https://github.com/user662122/user662122/actions/runs/1''),
      Print DownloadArtifacts]"
  by code_simp

lemma main_example_timeout:
  "fst (main example_environ
         (world_of (reply 200 example_workflows) (reply 204 ()) runs_never_completed)) = 0 \<and>
   length (network_calls (trace (snd (main example_environ
         (world_of (reply 200 example_workflows) (reply 204 ()) runs_never_completed))))) = 62 \<and>
   status_lines (trace (snd (main example_environ
         (world_of (reply 200 example_workflows) (reply 204 ()) runs_never_completed)))) =
     [''queued'']"
  by code_simp

section \<open>The properties\<close>

text \<open>
  C1. Whenever monitoring observes a run whose status is \<open>completed\<close>, the exit code is
  0 if the conclusion of that run is \<open>success\<close> and 1 for any other conclusion, a missing
  or null one included. Monitoring observes the run at poll \<open>k\<close>, within the sixty polls,
  when the reply to poll \<open>k\<close> is accepted and lists it first, and no earlier reply showed
  a completed run (the loop would have returned there). The credential is present, as it
  must be for monitoring to start.
\<close>

theorem completed_run_exit_code:
  assumes "truthy (GITHUB_TOKEN environ)"
    and "k < max_checks"
    and "status_code (runs_replies w k) = 200"
    and "json (runs_replies w k) = latest # rest"
    and "run_status latest = ''completed''"
    and "\<forall>j<k. \<not> shows_completed (runs_replies w j)"
  shows "fst (main environ w) = (if run_conclusion latest = Some ''success'' then 0 else 1)"
proof -
  have "fst (monitor_latest_run w) = Some (run_conclusion latest = Some ''success'')"
    unfolding monitor_latest_run_def
    by (rule monitor_loop_observes_completed[where k=k and rest=rest]) (use assms in simp_all)
  then show ?thesis
    by (simp add: main_exit_code[OF assms(1)] exit_code_def)
qed

theorem completed_run_exit_code_witness:
  "fst (main example_environ
         (world_of (reply 200 example_workflows) (reply 204 ())
            (runs_until_completed (Some ''success'')))) = 0 \<and>
   fst (main example_environ
         (world_of (reply 200 example_workflows) (reply 204 ())
            (runs_until_completed (Some ''failure'')))) = 1 \<and>
   fst (main example_environ
         (world_of (reply 200 example_workflows) (reply 204 ())
            (runs_until_completed None))) = 1"
proof -
  have two: "2 < max_checks"
    by (simp add: max_checks_def)
  note at_poll_2 =
    completed_run_exit_code[OF example_token two example_polls(1,2,3,5), unfolded example_polls(4)]
  show ?thesis
    by (simp add: at_poll_2)
qed

text \<open>
  C2. When the variable \<open>GITHUB_PAT\<close> is absent from the environment, \<open>main\<close> returns 1,
  sends no request, and its only effect is to print the missing-credential message.
\<close>

theorem missing_credential:
  assumes "environ ''GITHUB_PAT'' = None"
  shows "fst (main environ w) = 1 \<and>
         network_calls (trace (snd (main environ w))) = network_calls (trace w) \<and>
         trace (snd (main environ w)) = trace w @ [Print PatNotFound]"
  using assms by (simp add: main_def GITHUB_TOKEN_def)

theorem missing_credential_witness:
  "fst (main Map.empty (world_of (reply 200 example_workflows) (reply 204 ()) runs_never_completed)) = 1 \<and>
   network_calls (trace (snd (main Map.empty
      (world_of (reply 200 example_workflows) (reply 204 ()) runs_never_completed)))) = []"
  using missing_credential[where environ=Map.empty
      and w="world_of (reply 200 example_workflows) (reply 204 ()) runs_never_completed"]
  by (simp add: world_of_def)

text \<open>
  C3, as the specification states it: every 2xx reply to the list-runs request hands its
  data to the caller. The script does not: a reply with status 203 and a run in its body
  gives the caller the empty list.
\<close>

theorem non_2xx_failure_counterexample:
  "200 \<le> status_code (runs_replies
            (world_of (reply 203 example_workflows) (reply 204 ()) (runs_with_code 203)) 0) \<and>
   status_code (runs_replies
            (world_of (reply 203 example_workflows) (reply 204 ()) (runs_with_code 203)) 0) < 300 \<and>
   json (runs_replies
            (world_of (reply 203 example_workflows) (reply 204 ()) (runs_with_code 203)) 0) =
     [example_run ''completed'' (Some ''success'')] \<and>
   fst (get_workflow_runs
          (world_of (reply 203 example_workflows) (reply 204 ()) (runs_with_code 203))) = []"
  by (simp add: get_workflow_runs_fst world_of_def runs_with_code_def reply_def)

text \<open>
  C3, amended. For the list-runs and the list-workflows request, success is exactly
  status 200: a reply with status 200 hands its data to the caller (the run list; the id
  of the first workflow that matches the name, if any), and a reply with any other status,
  the other 2xx included, gives the empty result (the empty list, or no id). Either way
  exactly one request is sent: nothing is retried.
\<close>

theorem status_200_is_success:
  "fst (get_workflow_runs w) =
     (if status_code (runs_replies w 0) = 200 then json (runs_replies w 0) else []) \<and>
   network_calls (trace (snd (get_workflow_runs w))) = network_calls (trace w) @ [GetRuns] \<and>
   fst (get_workflow_id workflow_name w) =
     (if status_code (workflows_replies w 0) = 200
      then first_matching workflow_name (json (workflows_replies w 0)) else None) \<and>
   network_calls (trace (snd (get_workflow_id workflow_name w))) =
     network_calls (trace w) @ [GetWorkflows]"
  by (simp add: get_workflow_runs_fst get_workflow_id_fst)

text \<open>
  C4. The polling loop terminates within sixty attempts, whatever the provider replies.
  \<open>monitor_loop\<close> is a total function: its termination is proved above by the measure
  \<open>max_checks - check_count\<close>, which every iteration decreases. The attempts themselves are
  counted on the trace: \<open>monitor_latest_run\<close> sends at most sixty requests, all of them
  list-runs requests.
\<close>

theorem polling_bounded:
  "\<exists>n. n \<le> 60 \<and>
     network_calls (trace (snd (monitor_latest_run w))) =
       network_calls (trace w) @ replicate n GetRuns"
  using monitor_loop_calls[of 0 None "print MonitoringBanner w"]
  by (simp add: monitor_latest_run_def max_checks_def)

text \<open>
  C5. When none of the sixty replies shows a completed run, the loop exhausts its attempts:
  monitoring returns \<open>None\<close>, the timeout message is printed, and \<open>main\<close> returns 0 after
  printing where the build status can be checked.
\<close>

theorem timeout_is_inconclusive:
  assumes "truthy (GITHUB_TOKEN environ)"
    and "\<forall>k<max_checks. \<not> shows_completed (runs_replies w k)"
  shows "fst (monitor_latest_run w) = None \<and>
         fst (main environ w) = 0 \<and>
         (\<exists>es. trace (snd (main environ w)) =
            trace w @ es @
            [Print TimeoutReached, Print CheckStatusAt, Print (ActionsUrl OWNER REPO)])"
proof -
  let ?w = "print MonitoringBanner (before_monitoring w)"
  have none: "fst (monitor_latest_run w) = None"
    using monitor_loop_exhausted[of 0 "print MonitoringBanner w" None] assms(2)
    by (simp add: monitor_latest_run_def)
  from monitor_loop_exhausted[of 0 ?w None] assms(2)
  obtain es where res: "fst (monitor_loop None 0 ?w) = None"
    and tr: "trace (snd (monitor_loop None 0 ?w)) = trace ?w @ es @ [Print TimeoutReached]"
    by auto
  obtain es0 where es0: "trace (before_monitoring w) = trace w @ es0"
    using before_monitoring_trace by blast
  have "main environ w =
          (0, print (ActionsUrl OWNER REPO) (print CheckStatusAt (snd (monitor_loop None 0 ?w))))"
    using res
    by (cases "monitor_loop None 0 ?w")
       (simp add: main_with_token[OF assms(1)] monitor_latest_run_def)
  with tr es0 none show ?thesis
    by simp
qed

theorem timeout_is_inconclusive_witness:
  "fst (main example_environ
         (world_of (reply 200 example_workflows) (reply 204 ()) runs_never_completed)) = 0 \<and>
   fst (main example_environ
         (world_of (reply 200 example_workflows) (reply 204 ()) (\<lambda>k. reply 500 []))) = 0"
proof -
  have "\<forall>k<max_checks. \<not> shows_completed
      (runs_replies (world_of (reply 200 example_workflows) (reply 204 ()) runs_never_completed) k)"
    by (simp add: world_of_def runs_never_completed_def shows_completed_def reply_def
        example_run_def)
  moreover have "\<forall>k<max_checks. \<not> shows_completed
      (runs_replies (world_of (reply 200 example_workflows) (reply 204 ()) (\<lambda>k. reply 500 [])) k)"
    by (simp add: world_of_def shows_completed_def reply_def)
  ultimately show ?thesis
    using timeout_is_inconclusive[OF example_token] by blast
qed

text \<open>
  C6. \<open>trigger_workflow\<close> returns \<open>True\<close> exactly when the status of the reply to the
  dispatch request is 204; it sends that one request.
\<close>

theorem trigger_success_iff_204:
  "fst (trigger_workflow workflow_id w) = (status_code (dispatch_replies w 0) = 204) \<and>
   network_calls (trace (snd (trigger_workflow workflow_id w))) =
     network_calls (trace w) @ [PostDispatch workflow_id]"
  by (simp add: trigger_workflow_def requests_post_dispatch_def)

text \<open>
  C7, as the specification states it: for every successful reply to the list-workflows
  request, \<open>get_workflow_id\<close> returns the id of the first workflow whose path ends with
  the name. The specification counts every 2xx reply as successful; the script does not.
  A reply with status 203 lists \<open>lint.yml\<close>, \<open>build.yml\<close> (id 42) and \<open>rebuild.yml\<close>; the
  first path that ends with \<open>build.yml\<close> is the second one, and the script returns
  \<open>None\<close>, not 42.
\<close>

theorem get_workflow_id_2xx_counterexample:
  "200 \<le> status_code (workflows_replies
            (world_of (reply 203 example_workflows) (reply 204 ()) runs_never_completed) 0) \<and>
   status_code (workflows_replies
            (world_of (reply 203 example_workflows) (reply 204 ()) runs_never_completed) 0) < 300 \<and>
   json (workflows_replies
            (world_of (reply 203 example_workflows) (reply 204 ()) runs_never_completed) 0) =
     [\<lparr>wf_id = 7, wf_path = ''.github/workflows/lint.yml''\<rparr>] @
     \<lparr>wf_id = 42, wf_path = ''.github/workflows/build.yml''\<rparr> #
     [\<lparr>wf_id = 43, wf_path = ''.github/workflows/rebuild.yml''\<rparr>] \<and>
   suffix ''build.yml'' ''.github/workflows/build.yml'' \<and>
   \<not> suffix ''build.yml'' ''.github/workflows/lint.yml'' \<and>
   fst (get_workflow_id ''build.yml''
          (world_of (reply 203 example_workflows) (reply 204 ()) runs_never_completed)) = None \<and>
   fst (get_workflow_id ''build.yml''
          (world_of (reply 203 example_workflows) (reply 204 ()) runs_never_completed)) \<noteq> Some 42"
  by (simp add: get_workflow_id_fst world_of_def reply_def example_workflows_def
      endswith_iff_suffix[symmetric] endswith_def)

text \<open>
  C7, amended. \<open>get_workflow_id\<close> resolves a workflow by name. On a reply with status 200
  it returns the id of the first workflow of the list whose path ends with the name, and
  \<open>None\<close> when no path does; on any other status, the other 2xx included, it returns
  \<open>None\<close>. "Ends with" is the library's \<open>suffix\<close>, which \<open>endswith\<close> computes.
\<close>

theorem get_workflow_id_first_match:
  "(status_code (workflows_replies w 0) = 200 \<and>
    json (workflows_replies w 0) = before @ workflow # after \<and>
    suffix workflow_name (wf_path workflow) \<and>
    (\<forall>x\<in>set before. \<not> suffix workflow_name (wf_path x))
      \<longrightarrow> fst (get_workflow_id workflow_name w) = Some (wf_id workflow)) \<and>
   (status_code (workflows_replies w 0) = 200 \<and>
    (\<forall>x\<in>set (json (workflows_replies w 0)). \<not> suffix workflow_name (wf_path x))
      \<longrightarrow> fst (get_workflow_id workflow_name w) = None) \<and>
   (status_code (workflows_replies w 0) \<noteq> 200
      \<longrightarrow> fst (get_workflow_id workflow_name w) = None)"
  by (simp add: get_workflow_id_fst first_matching_Some first_matching_None
      endswith_iff_suffix)

theorem get_workflow_id_first_match_witness:
  "fst (get_workflow_id ''build.yml''
         (world_of (reply 200 example_workflows) (reply 204 ()) runs_never_completed)) = Some 42 \<and>
   fst (get_workflow_id ''deploy.yml''
         (world_of (reply 200 example_workflows) (reply 204 ()) runs_never_completed)) = None \<and>
   fst (get_workflow_id ''build.yml''
         (world_of (reply 404 example_workflows) (reply 204 ()) runs_never_completed)) = None"
proof -
  let ?found = "world_of (reply 200 example_workflows) (reply 204 ()) runs_never_completed"
  let ?failed = "world_of (reply 404 example_workflows) (reply 204 ()) runs_never_completed"
  let ?lint = "\<lparr>wf_id = 7, wf_path = ''.github/workflows/lint.yml''\<rparr>"
  let ?build = "\<lparr>wf_id = 42, wf_path = ''.github/workflows/build.yml''\<rparr>"
  let ?rebuild = "\<lparr>wf_id = 43, wf_path = ''.github/workflows/rebuild.yml''\<rparr>"
  have "status_code (workflows_replies ?found 0) = 200 \<and>
        json (workflows_replies ?found 0) = [?lint] @ ?build # [?rebuild] \<and>
        suffix ''build.yml'' (wf_path ?build) \<and>
        (\<forall>x\<in>set [?lint]. \<not> suffix ''build.yml'' (wf_path x))"
    by (simp add: world_of_def reply_def example_workflows_def
        endswith_iff_suffix[symmetric] endswith_def)
  from get_workflow_id_first_match[THEN conjunct1, THEN mp, OF this]
  have first: "fst (get_workflow_id ''build.yml'' ?found) = Some 42"
    by simp
  have "status_code (workflows_replies ?found 0) = 200 \<and>
        (\<forall>x\<in>set (json (workflows_replies ?found 0)). \<not> suffix ''deploy.yml'' (wf_path x))"
    by (simp add: world_of_def reply_def example_workflows_def
        endswith_iff_suffix[symmetric] endswith_def)
  from get_workflow_id_first_match[THEN conjunct2, THEN conjunct1, THEN mp, OF this]
  have second: "fst (get_workflow_id ''deploy.yml'' ?found) = None" .
  have "status_code (workflows_replies ?failed 0) \<noteq> 200"
    by (simp add: world_of_def reply_def)
  from get_workflow_id_first_match[THEN conjunct2, THEN conjunct2, THEN mp, OF this]
  have third: "fst (get_workflow_id ''build.yml'' ?failed) = None" .
  from first second third show ?thesis
    by blast
qed

text \<open>
  C8. A status line is printed for an observed run exactly when its status differs from
  the status observed before it. Over the whole loop: the status lines printed are the
  statuses of the observed runs with every repetition of the preceding status left out
  (\<open>remdups_adj\<close>); the first observed status is always printed, since nothing was
  observed before it. In one iteration: when the status of the latest run is the previous
  status, the iteration prints nothing, it only sends its request and sleeps. (A
  completed status is never the previous one: the loop returns when it sees it.)
\<close>

theorem status_printed_on_change:
  "status_lines (trace (snd (monitor_latest_run w))) =
     status_lines (trace w) @
     remdups_adj (map run_status (observed_runs max_checks (runs_replies w))) \<and>
   (check_count < max_checks \<and> fst (get_workflow_runs w) = latest # rest \<and>
    run_status latest \<noteq> ''completed''
      \<longrightarrow> monitor_loop (Some (run_status latest)) check_count w =
          monitor_loop (Some (run_status latest)) (check_count + 1)
            (sleep 5 (snd (get_workflow_runs w))))"
proof (intro conjI impI)
  show "status_lines (trace (snd (monitor_latest_run w))) =
     status_lines (trace w) @
     remdups_adj (map run_status (observed_runs max_checks (runs_replies w)))"
    by (simp add: monitor_latest_run_def monitor_loop_status_lines status_updates_None)
next
  assume "check_count < max_checks \<and> fst (get_workflow_runs w) = latest # rest \<and>
    run_status latest \<noteq> ''completed''"
  then show "monitor_loop (Some (run_status latest)) check_count w =
          monitor_loop (Some (run_status latest)) (check_count + 1)
            (sleep 5 (snd (get_workflow_runs w)))"
    by (simp add: monitor_loop_running[where rest=rest] report_status_def)
qed

theorem status_printed_on_change_witness:
  "monitor_loop (Some ''queued'') 0
     (world_of (reply 200 example_workflows) (reply 204 ()) runs_never_completed) =
   monitor_loop (Some ''queued'') 1
     (sleep 5 (snd (get_workflow_runs
        (world_of (reply 200 example_workflows) (reply 204 ()) runs_never_completed)))) \<and>
   map run_status (observed_runs max_checks runs_with_repeats) =
     [''queued'', ''queued'', ''in_progress'', ''in_progress'', ''completed''] \<and>
   status_lines (trace (snd (monitor_latest_run
       (world_of (reply 200 example_workflows) (reply 204 ()) runs_with_repeats)))) =
     [''queued'', ''in_progress'', ''completed'']"
proof -
  let ?w = "world_of (reply 200 example_workflows) (reply 204 ()) runs_never_completed"
  have observed: "map run_status (observed_runs max_checks runs_with_repeats) =
      [''queued'', ''queued'', ''in_progress'', ''in_progress'', ''completed'']"
    by (simp add: max_checks_def numeral_eq_Suc runs_with_repeats_def reply_def
        example_run_def)
  have printed: "status_lines (trace (snd (monitor_latest_run
       (world_of (reply 200 example_workflows) (reply 204 ()) runs_with_repeats)))) =
     [''queued'', ''in_progress'', ''completed'']"
    using status_printed_on_change[THEN conjunct1,
        of "world_of (reply 200 example_workflows) (reply 204 ()) runs_with_repeats"]
    by (simp add: world_of_def observed)
  have "0 < max_checks \<and> fst (get_workflow_runs ?w) = example_run ''queued'' None # [] \<and>
        run_status (example_run ''queued'' None) \<noteq> ''completed''"
    by (simp add: max_checks_def get_workflow_runs_fst world_of_def runs_never_completed_def
        reply_def example_run_def)
  from status_printed_on_change[THEN conjunct2, THEN mp, OF this]
  have unchanged: "monitor_loop (Some ''queued'') 0 ?w =
      monitor_loop (Some ''queued'') 1 (sleep 5 (snd (get_workflow_runs ?w)))"
    by (simp add: example_run_def)
  from unchanged observed printed show ?thesis
    by blast
qed

text \<open>
  C9. With a credential present, the return value of \<open>main\<close> is decided by the result of
  monitoring alone: two worlds that give the same replies to the list-runs requests give
  the same exit code, whatever they reply to the list-workflows and dispatch requests;
  the exit code is 0 for \<open>True\<close> and \<open>None\<close> and 1 for \<open>False\<close>; and monitoring is always
  entered, as its banner on the output shows.
\<close>

theorem exit_code_from_monitoring_only:
  assumes "truthy (GITHUB_TOKEN environ)"
    and "runs_replies w' = runs_replies w"
  shows "fst (main environ w') = fst (main environ w) \<and>
         fst (main environ w) =
           (case fst (monitor_latest_run w) of Some True \<Rightarrow> 0 | Some False \<Rightarrow> 1 | None \<Rightarrow> 0) \<and>
         MonitoringBanner \<in> set (printed (trace (snd (main environ w))))"
proof -
  have "fst (monitor_latest_run w') = fst (monitor_latest_run w)"
    unfolding monitor_latest_run_def by (rule monitor_loop_result_cong) (simp add: assms(2))
  moreover have "MonitoringBanner \<in> set (printed (trace (snd (main environ w))))"
    using main_monitors[OF assms(1), of w] by auto
  ultimately show ?thesis
    by (simp add: main_exit_code[OF assms(1)] exit_code_def)
qed

theorem exit_code_from_monitoring_only_witness:
  "fst (main example_environ
         (world_of (reply 404 []) (reply 422 ()) (runs_until_completed (Some ''failure'')))) =
   fst (main example_environ
         (world_of (reply 200 example_workflows) (reply 204 ())
            (runs_until_completed (Some ''failure''))))"
proof -
  have "runs_replies (world_of (reply 404 []) (reply 422 ()) (runs_until_completed (Some ''failure''))) =
        runs_replies (world_of (reply 200 example_workflows) (reply 204 ())
            (runs_until_completed (Some ''failure'')))"
    by (simp add: world_of_def)
  from exit_code_from_monitoring_only[OF example_token this] show ?thesis
    by simp
qed

text \<open>
  C10. A \<open>GITHUB_PAT\<close> that is set to the empty string is treated as a missing one:
  \<open>main\<close> behaves as it does with the variable removed, returns 1, sends no request and
  prints only the missing-credential message.
\<close>

theorem empty_credential:
  assumes "environ ''GITHUB_PAT'' = Some ''''"
  shows "main environ w = main (environ(''GITHUB_PAT'' := None)) w \<and>
         fst (main environ w) = 1 \<and>
         network_calls (trace (snd (main environ w))) = network_calls (trace w) \<and>
         trace (snd (main environ w)) = trace w @ [Print PatNotFound]"
  using assms by (simp add: main_def GITHUB_TOKEN_def)

theorem empty_credential_witness:
  "main [''GITHUB_PAT'' \<mapsto> '''']
      (world_of (reply 200 example_workflows) (reply 204 ()) runs_never_completed) =
     (1, print PatNotFound
           (world_of (reply 200 example_workflows) (reply 204 ()) runs_never_completed))"
  using empty_credential[where environ="[''GITHUB_PAT'' \<mapsto> '''']"
      and w="world_of (reply 200 example_workflows) (reply 204 ()) runs_never_completed"]
  by (simp add: main_def GITHUB_TOKEN_def)

end
